theory Spec2Isabelle
  imports Main
begin

section \<open>Python values, exceptions and integer operations\<close>

text \<open>
  Every exception class raised by \<^verbatim>\<open>curve.py\<close> and \<^verbatim>\<open>ecdsa.py\<close> (or by the Python
  operators they use) derives from \<^verbatim>\<open>Exception\<close>. A call that may raise returns a value
  of \<open>exn + 'a\<close>, with \<open>Inl\<close> for the raised exception.
\<close>

datatype exn =
  ValueError | TypeError | UserWarning | AssertionError | ZeroDivisionError | OverflowError

definition bnd :: "exn + 'a \<Rightarrow> ('a \<Rightarrow> exn + 'b) \<Rightarrow> exn + 'b" where
  "bnd m f = (case m of Inl e \<Rightarrow> Inl e | Inr v \<Rightarrow> f v)"

text \<open>\<^verbatim>\<open>try: body  except Exception: handler\<close>; every member of \<open>exn\<close> is an \<^verbatim>\<open>Exception\<close>.\<close>

definition try_except :: "exn + 'a \<Rightarrow> (exn \<Rightarrow> exn + 'a) \<Rightarrow> exn + 'a" where
  "try_except body handler = (case body of Inl e \<Rightarrow> handler e | Inr v \<Rightarrow> Inr v)"

text \<open>Python's \<^verbatim>\<open>x % m\<close> on integers: floored, and \<^verbatim>\<open>ZeroDivisionError\<close> for \<open>m = 0\<close>.\<close>

definition py_mod :: "int \<Rightarrow> int \<Rightarrow> exn + int" where
  "py_mod x m = (if m = 0 then Inl ZeroDivisionError else Inr (x mod m))"

text \<open>
  Python's three-argument \<^verbatim>\<open>pow(b, e, m)\<close>. The constructor only calls it with a negative
  exponent when the modulus is not positive; there Python either raises \<^verbatim>\<open>ValueError\<close>
  (before 3.8) or returns a value in \<open>(m, 0]\<close>, which the caller's comparison with 1
  rejects with the same \<^verbatim>\<open>ValueError\<close>.
\<close>

definition py_pow :: "int \<Rightarrow> int \<Rightarrow> int \<Rightarrow> exn + int" where
  "py_pow b e m = (if m = 0 \<or> e < 0 then Inl ValueError else Inr ((b ^ nat e) mod m))"

function bit_length :: "int \<Rightarrow> nat" where
  "bit_length i = (if i = 0 then 0 else Suc (bit_length (\<bar>i\<bar> div 2)))"
  by pat_completeness auto
termination
  by (relation "measure (\<lambda>i. nat \<bar>i\<bar>)") auto

declare bit_length.simps [simp del]

section \<open>Number theory helpers (module numbertheory, not part of the sources)\<close>

text \<open>
  Modelled from the spec: \<^verbatim>\<open>mod_inv(a, m)\<close> of \<^verbatim>\<open>btclib.numbertheory\<close>, which is imported by
  both source files but is not among them. The specification (section 6): it "returns
  the modular inverse or fails if \<open>gcd(a, m) \<noteq> 1\<close>". The inverse is the representative in
  \<open>[0, m)\<close>, computed from the Bezout coefficients of \<open>a mod m\<close> and \<open>m\<close>.
\<close>

definition mod_inv :: "int \<Rightarrow> int \<Rightarrow> exn + int" where
  "mod_inv a m =
     (if m \<le> 0 \<or> gcd a m \<noteq> 1 then Inl ValueError
      else Inr (fst (bezw (nat (a mod m)) (nat m)) mod m))"

text \<open>
  Modelled from the spec: \<^verbatim>\<open>mod_sqrt(a, p)\<close> of \<^verbatim>\<open>btclib.numbertheory\<close> (section 6): it
  "returns a square root of \<open>a mod p\<close> or fails if \<open>a\<close> is a non-residue". The model returns
  the least root in \<open>[0, p)\<close>.
\<close>

definition mod_sqrt :: "int \<Rightarrow> int \<Rightarrow> exn + int" where
  "mod_sqrt a p =
     (case List.find (\<lambda>r. (r * r) mod p = a mod p) [0 .. p - 1] of
        None \<Rightarrow> Inl ValueError
      | Some r \<Rightarrow> Inr r)"

section \<open>Points and the constants of module alias\<close>

type_synonym Point = "int \<times> int"
type_synonym JacPoint = "int \<times> int \<times> int"

text \<open>
  \<^verbatim>\<open>INF\<close> and \<^verbatim>\<open>INFJ\<close> are imported from \<^verbatim>\<open>btclib.alias\<close>, which is not among the sources.
  The functions below take them as a parameter (\<open>INF_aff\<close> stands for \<^verbatim>\<open>INF\<close>, a name that
  HOL's syntax reserves). The source recognises the infinity
  point by \<^verbatim>\<open>Q[1] == 0\<close> (affine) and \<^verbatim>\<open>Q[2] == 0\<close> (Jacobian); \<open>alias_ok\<close> states that
  the two constants are infinity points in that sense.
\<close>

record alias_consts =
  INF_aff :: Point
  INFJ :: JacPoint

definition alias_ok :: "alias_consts \<Rightarrow> bool" where
  "alias_ok al = (snd (INF_aff al) = 0 \<and> snd (snd (INFJ al)) = 0)"

definition jac_from_aff :: "Point \<Rightarrow> JacPoint" where
  "jac_from_aff Q = (fst Q, snd Q, if snd Q \<noteq> 0 then 1 else 0)"

section \<open>Class Curve\<close>

record curve =
  curve_p :: int
  curve_a :: int
  curve_b :: int
  curve_G :: Point
  curve_n :: int
  curve_h :: int
  sec_bits :: int
  psize :: int
  pIsThreeModFour :: bool
  nlen :: int
  nsize :: int

definition y2 :: "curve \<Rightarrow> int \<Rightarrow> exn + int" where
  "y2 ec x = py_mod ((x * x + curve_a ec) * x + curve_b ec) (curve_p ec)"

text \<open>
  \<^verbatim>\<open>is_on_curve\<close>. A point is a pair here, so the \<^verbatim>\<open>len(Q) != 2\<close> test of the source never
  fires.
\<close>

definition is_on_curve :: "curve \<Rightarrow> Point \<Rightarrow> exn + bool" where
  "is_on_curve ec Q =
     (if snd Q = 0 then Inr True
      else if \<not> (0 < snd Q \<and> snd Q < curve_p ec) then Inl ValueError
      else bnd (y2 ec (fst Q)) (\<lambda>l.
           bnd (py_mod (snd Q * snd Q) (curve_p ec)) (\<lambda>r. Inr (l = r))))"

definition require_on_curve :: "curve \<Rightarrow> Point \<Rightarrow> exn + unit" where
  "require_on_curve ec Q =
     bnd (is_on_curve ec Q) (\<lambda>ok. if \<not> ok then Inl ValueError else Inr ())"

definition opposite :: "curve \<Rightarrow> Point \<Rightarrow> exn + Point" where
  "opposite ec Q =
     bnd (require_on_curve ec Q) (\<lambda>_.
     bnd (py_mod (curve_p ec - snd Q) (curve_p ec)) (\<lambda>y. Inr (fst Q, y)))"

definition add_aff :: "alias_consts \<Rightarrow> curve \<Rightarrow> Point \<Rightarrow> Point \<Rightarrow> exn + Point" where
  "add_aff al ec Q R =
     (if snd R = 0 then Inr Q
      else if snd Q = 0 then Inr R
      else bnd (if fst R = fst Q then
                  (if snd R = snd Q then
                     bnd (mod_inv (2 * snd Q) (curve_p ec)) (\<lambda>i.
                     bnd (py_mod ((3 * fst Q * fst Q + curve_a ec) * i) (curve_p ec)) (\<lambda>lam.
                       Inr (Some lam)))
                   else Inr None)
                else
                  bnd (mod_inv (fst R - fst Q) (curve_p ec)) (\<lambda>i.
                  bnd (py_mod ((snd R - snd Q) * i) (curve_p ec)) (\<lambda>lam. Inr (Some lam))))
             (\<lambda>l. case l of
                None \<Rightarrow> Inr (INF_aff al)
              | Some lam \<Rightarrow>
                  bnd (py_mod (lam * lam - fst Q - fst R) (curve_p ec)) (\<lambda>x.
                  bnd (py_mod (lam * (fst Q - x) - snd Q) (curve_p ec)) (\<lambda>y. Inr (x, y)))))"

definition add :: "alias_consts \<Rightarrow> curve \<Rightarrow> Point \<Rightarrow> Point \<Rightarrow> exn + Point" where
  "add al ec Q1 Q2 =
     bnd (require_on_curve ec Q1) (\<lambda>_.
     bnd (require_on_curve ec Q2) (\<lambda>_. add_aff al ec Q1 Q2))"

text \<open>
  The loop of \<^verbatim>\<open>_mult_aff\<close>: state \<open>(m, R, Q)\<close>. For \<open>m > 0\<close>, \<^verbatim>\<open>m & 1\<close> is \<open>m mod 2\<close> and
  \<^verbatim>\<open>m >> 1\<close> is \<open>m div 2\<close>. The doubling of \<open>Q\<close> is computed in every iteration, also the
  last one.
\<close>

function mult_loop :: "alias_consts \<Rightarrow> curve \<Rightarrow> int \<Rightarrow> Point \<Rightarrow> Point \<Rightarrow> exn + Point" where
  "mult_loop al ec m R Q =
     (if m > 0 then
        (case (if m mod 2 \<noteq> 0 then add_aff al ec R Q else Inr R) of
           Inl e \<Rightarrow> Inl e
         | Inr R' \<Rightarrow>
             (case add_aff al ec Q Q of
                Inl e \<Rightarrow> Inl e
              | Inr Q' \<Rightarrow> mult_loop al ec (m div 2) R' Q'))
      else Inr R)"
  by pat_completeness auto
termination
  by (relation "measure (\<lambda>(al, ec, m, R, Q). nat m)") auto

declare mult_loop.simps [simp del]

definition mult_aff :: "alias_consts \<Rightarrow> curve \<Rightarrow> int \<Rightarrow> Point \<Rightarrow> exn + Point" where
  "mult_aff al ec m Q =
     bnd (py_mod m (curve_n ec)) (\<lambda>m'.
       if m' = 0 \<or> snd Q = 0 then Inr (INF_aff al)
       else mult_loop al ec m' (INF_aff al) Q)"

text \<open>\<^verbatim>\<open>mult(m, Q = None)\<close>: the generator is used, unchecked, when no point is given.\<close>

definition mult :: "alias_consts \<Rightarrow> curve \<Rightarrow> int \<Rightarrow> Point option \<Rightarrow> exn + Point" where
  "mult al ec m Qo =
     (case Qo of
        None \<Rightarrow> mult_aff al ec m (curve_G ec)
      | Some Q \<Rightarrow> bnd (require_on_curve ec Q) (\<lambda>_. mult_aff al ec m Q))"

definition aff_from_jac :: "alias_consts \<Rightarrow> curve \<Rightarrow> JacPoint \<Rightarrow> exn + Point" where
  "aff_from_jac al ec Q =
     (case Q of (X, Y, Z) \<Rightarrow>
        if Z = 0 then Inr (INF_aff al)
        else
          bnd (mod_inv (Z * Z) (curve_p ec)) (\<lambda>i2.
          bnd (py_mod (X * i2) (curve_p ec)) (\<lambda>x.
          bnd (mod_inv (Z * Z * Z) (curve_p ec)) (\<lambda>i3.
          bnd (py_mod (Y * i3) (curve_p ec)) (\<lambda>y. Inr (x, y))))))"

definition add_jac :: "alias_consts \<Rightarrow> curve \<Rightarrow> JacPoint \<Rightarrow> JacPoint \<Rightarrow> exn + JacPoint" where
  "add_jac al ec Q R =
     (case (Q, R) of ((QX, QY, QZ), (RX, RY, RZ)) \<Rightarrow>
        if QZ = 0 then Inr R
        else if RZ = 0 then Inr Q
        else
          let p = curve_p ec;
              RZ2 = RZ * RZ; RZ3 = RZ2 * RZ;
              QZ2 = QZ * QZ; QZ3 = QZ2 * QZ
          in
          if p = 0 then Inl ZeroDivisionError
          else if (QX * RZ2) mod p = (RX * QZ2) mod p then
            (if (QY * RZ3) mod p = (RY * QZ3) mod p then
               let QY2 = QY * QY;
                   W = (3 * QX * QX + curve_a ec * QZ2 * QZ2) mod p;
                   V = (4 * QX * QY2) mod p;
                   X = (W * W - 2 * V) mod p;
                   Y = (W * (V - X) - 8 * QY2 * QY2) mod p;
                   Z = (2 * QY * QZ) mod p
               in Inr (X, Y, Z)
             else Inr (INFJ al))
          else
            let T = (QY * RZ3) mod p;
                U = (RY * QZ3) mod p;
                W = (U - T) mod p;
                M = (QX * RZ2) mod p;
                N = (RX * QZ2) mod p;
                V = (N - M) mod p;
                V2 = V * V; V3 = V2 * V; MV2 = M * V2;
                X = (W * W - V3 - 2 * MV2) mod p;
                Y = (W * (MV2 - X) - T * V3) mod p;
                Z = (V * QZ * RZ) mod p
            in Inr (X, Y, Z))"

text \<open>
  \<^verbatim>\<open>y(x)\<close> (named \<open>curve_y\<close>, to leave \<open>y\<close> to the variables) and
  \<^verbatim>\<open>y_odd(x, odd1even0)\<close>.
\<close>

definition curve_y :: "curve \<Rightarrow> int \<Rightarrow> exn + int" where
  "curve_y ec x =
     (if \<not> (0 \<le> x \<and> x < curve_p ec) then Inl ValueError
      else bnd (y2 ec x) (\<lambda>v. mod_sqrt v (curve_p ec)))"

definition y_odd :: "curve \<Rightarrow> int \<Rightarrow> int \<Rightarrow> exn + int" where
  "y_odd ec x odd1even0 =
     (if odd1even0 \<noteq> 0 \<and> odd1even0 \<noteq> 1 then Inl ValueError
      else bnd (curve_y ec x) (\<lambda>root.
           if root mod 2 = odd1even0 then Inr root else Inr (curve_p ec - root)))"

subsection \<open>The constructor\<close>

text \<open>
  Two steps of \<^verbatim>\<open>Curve.__init__\<close> are floating-point computations:
  \<^verbatim>\<open>delta = int(2 * sqrt(p))\<close> and \<^verbatim>\<open>exp_h = int(1/n + delta/n + p/n)\<close> (true division).
  Their results are taken from a parameter, so that every statement about the
  constructor holds whatever the floating-point unit returns (or raises).
\<close>

record float_ops =
  int_2_sqrt :: "int \<Rightarrow> exn + int"
  int_cofactor :: "int \<Rightarrow> int \<Rightarrow> int \<Rightarrow> exn + int"

definition t_range :: "int list" where
  "t_range = [56, 64, 80, 96, 112, 128, 160, 192, 256]"

text \<open>The record that \<^verbatim>\<open>__init__\<close> fills in.\<close>

definition mk_curve :: "int \<Rightarrow> int \<Rightarrow> int \<Rightarrow> Point \<Rightarrow> int \<Rightarrow> int \<Rightarrow> int \<Rightarrow> curve" where
  "mk_curve p a b G n h sb =
     \<lparr> curve_p = p, curve_a = a, curve_b = b, curve_G = G, curve_n = n, curve_h = h,
       sec_bits = sb,
       psize = (int (bit_length p) + 7) div 8,
       pIsThreeModFour = (p mod 4 = 3),
       nlen = int (bit_length n),
       nsize = (int (bit_length n) + 7) div 8 \<rparr>"

text \<open>
  The loop of step 8: \<^verbatim>\<open>pow(p, i, n) == 1\<close> for some \<open>i\<close> of \<^verbatim>\<open>range(1, 100)\<close>. It runs
  after the primality check of \<open>n\<close>, so \<open>n \<ge> 2\<close> and \<^verbatim>\<open>pow\<close> does not raise.
\<close>

definition weak_curve :: "int \<Rightarrow> int \<Rightarrow> bool" where
  "weak_curve p n = (\<exists>i \<in> set [1 ..< 100]. (p ^ i) mod n = 1)"

text \<open>
  \<^verbatim>\<open>Curve.__init__\<close>, check by check and in the order of the source. The methods it calls
  (\<^verbatim>\<open>is_on_curve\<close>, \<^verbatim>\<open>_mult_aff\<close>, \<^verbatim>\<open>add\<close>) read only attributes that are already
  assigned at the call, so they are given the finished record. In the assertion on
  \<open>h\<close>, \<open>sec_bits\<close> is 0 or a member of \<open>t_range\<close>, a multiple of 8: \<^verbatim>\<open>pow(2, sec_bits/8)\<close>
  is then the exact power of two.
\<close>

definition Curve_init ::
  "float_ops \<Rightarrow> alias_consts \<Rightarrow> int \<Rightarrow> int \<Rightarrow> int \<Rightarrow> Point \<Rightarrow> int \<Rightarrow> int \<Rightarrow> int \<Rightarrow> bool
     \<Rightarrow> exn + curve" where
  "Curve_init fl al p a b G n h sb weakness_check =
     (let ec = mk_curve p a b G n h sb in
      if p mod 2 = 0 then Inl ValueError
      else bnd (py_pow 2 (p - 1) p) (\<lambda>f.
      if f \<noteq> 1 then Inl ValueError
      else if sb \<noteq> 0 \<and> sb \<notin> set t_range then Inl UserWarning
      else if sb \<noteq> 0 \<and> int (bit_length p) < sb * 2 then Inl UserWarning
      else if \<not> (0 \<le> a \<and> a < p) then Inl ValueError
      else if \<not> (0 \<le> b \<and> b < p) then Inl ValueError
      else if (4 * a * a * a + 27 * b * b) mod p = 0 then Inl ValueError
      else bnd (is_on_curve ec G) (\<lambda>on.
      if \<not> on then Inl ValueError
      else bnd (if n < 2 then Inr True
                else if n > 2 then bnd (py_pow 2 (n - 1) n) (\<lambda>g. Inr (g \<noteq> 1))
                else Inr False) (\<lambda>not_prime.
      if not_prime then Inl ValueError
      else bnd (int_2_sqrt fl p) (\<lambda>delta.
      if h < 2 \<and> \<not> (p + 1 - delta \<le> n \<and> n \<le> p + 1 + delta) then Inl ValueError
      else bnd (int_cofactor fl n delta p) (\<lambda>exp_h.
      if h \<noteq> exp_h then Inl ValueError
      else if \<not> (sb = 0 \<or> h \<le> 2 ^ nat (sb div 8)) then Inl AssertionError
      else bnd (mult_aff al ec (n - 1) G) (\<lambda>InfMinusG.
           bnd (add al ec InfMinusG G) (\<lambda>Infinity.
      if snd Infinity \<noteq> 0 then Inl ValueError
      else if n = p then Inl AssertionError
      else if weakness_check \<and> weak_curve p n then Inl UserWarning
      else Inr ec))))))))"

section \<open>Module ecdsa\<close>

text \<open>
  The digest function, the digest-to-integer conversion and the nonce derivation are
  external collaborators (\<^verbatim>\<open>hashlib\<close>, \<^verbatim>\<open>btclib.ecsignutils\<close>, \<^verbatim>\<open>btclib.rfc6979\<close>, none of
  them among the sources). They are parameters: \<open>'m\<close> is the type of messages, \<open>'h\<close> the
  type of digests, and each collaborator may raise.
\<close>

record ('m, 'h) collaborators =
  Hash :: "'m \<Rightarrow> exn + 'h"
  int_from_hash :: "'h \<Rightarrow> curve \<Rightarrow> exn + int"
  rfc6979 :: "int \<Rightarrow> 'h \<Rightarrow> curve \<Rightarrow> exn + int"

text \<open>
  Modelled from the spec: the helpers that \<^verbatim>\<open>ecdsa.py\<close> imports from
  \<^verbatim>\<open>btclib.ellipticcurves\<close>, a module that is not among the sources. They are expressed
  with the methods of class \<^verbatim>\<open>Curve\<close> above, following the specification:
  \<^item> \<open>int_from_Scalar\<close>: a scalar is "reduced into range" (section 4.3, step 2);
  \<^item> \<open>pointMultiply\<close>: "\<open>R = k\<cdot>G\<close>", the scalar multiplication \<open>mult(m, Q)\<close> (sections 4.2, 4.3);
  \<^item> \<open>to_Point\<close>: the public point is "validated to lie on curve" (section 4.4);
  \<^item> \<open>DoubleScalarMultiplication\<close>: "\<open>R = u1\<cdot>G + u2\<cdot>Q\<close> (may be computed as two independent
    scalar multiplications and one addition ...)" (section 4.4, step 4);
  \<^item> \<open>yOdd\<close> is the method \<^verbatim>\<open>y_odd\<close> of the class.
\<close>

definition int_from_Scalar :: "curve \<Rightarrow> int \<Rightarrow> exn + int" where
  "int_from_Scalar ec k = py_mod k (curve_n ec)"

definition pointMultiply :: "alias_consts \<Rightarrow> curve \<Rightarrow> int \<Rightarrow> Point \<Rightarrow> exn + Point" where
  "pointMultiply al ec k Q = mult al ec k (Some Q)"

definition to_Point :: "curve \<Rightarrow> Point \<Rightarrow> exn + Point" where
  "to_Point ec Q = bnd (require_on_curve ec Q) (\<lambda>_. Inr Q)"

definition DoubleScalarMultiplication ::
  "alias_consts \<Rightarrow> curve \<Rightarrow> int \<Rightarrow> Point \<Rightarrow> int \<Rightarrow> Point \<Rightarrow> exn + Point" where
  "DoubleScalarMultiplication al ec u P v Q =
     bnd (mult al ec u (Some P)) (\<lambda>A.
     bnd (mult al ec v (Some Q)) (\<lambda>B. add al ec A B))"

text \<open>\<^verbatim>\<open>to_dsasig\<close>: the signature is a sequence, of any length.\<close>

definition to_dsasig :: "curve \<Rightarrow> int list \<Rightarrow> exn + (int \<times> int)" where
  "to_dsasig ec dsasig =
     (if length dsasig \<noteq> 2 then Inl TypeError
      else let r = dsasig ! 0; s = dsasig ! 1 in
        if \<not> (0 < r \<and> r < curve_n ec) then Inl ValueError
        else if \<not> (0 < s \<and> s < curve_n ec) then Inl ValueError
        else Inr (r, s))"

text \<open>\<^verbatim>\<open>_ecdsa_sign(H, d, k = None, ec, Hash)\<close>.\<close>

definition ecdsa_sign' ::
  "('m, 'h) collaborators \<Rightarrow> alias_consts \<Rightarrow> curve \<Rightarrow> 'h \<Rightarrow> int \<Rightarrow> int option
     \<Rightarrow> exn + (int \<times> int)" where
  "ecdsa_sign' ext al ec H d0 ko =
     bnd (int_from_Scalar ec d0) (\<lambda>d.
     if d = 0 then Inl ValueError
     else bnd (case ko of None \<Rightarrow> rfc6979 ext d H ec | Some k0 \<Rightarrow> int_from_Scalar ec k0) (\<lambda>k.
          bnd (pointMultiply al ec k (curve_G ec)) (\<lambda>R.
     if snd R = 0 then Inl ValueError
     else bnd (py_mod (fst R) (curve_n ec)) (\<lambda>r.
     if r = 0 then Inl ValueError
     else bnd (int_from_hash ext H ec) (\<lambda>e.
          bnd (mod_inv k (curve_n ec)) (\<lambda>k1.
          bnd (py_mod (k1 * (e + r * d)) (curve_n ec)) (\<lambda>s.
     if s = 0 then Inl ValueError else Inr (r, s))))))))"

definition ecdsa_sign ::
  "('m, 'h) collaborators \<Rightarrow> alias_consts \<Rightarrow> curve \<Rightarrow> 'm \<Rightarrow> int \<Rightarrow> int option
     \<Rightarrow> exn + (int \<times> int)" where
  "ecdsa_sign ext al ec M q ko = bnd (Hash ext M) (\<lambda>H. ecdsa_sign' ext al ec H q ko)"

text \<open>\<^verbatim>\<open>_ecdsa_verify(dsasig, H, P, ec, Hash)\<close>.\<close>

definition ecdsa_verify' ::
  "('m, 'h) collaborators \<Rightarrow> alias_consts \<Rightarrow> curve \<Rightarrow> int list \<Rightarrow> 'h \<Rightarrow> Point
     \<Rightarrow> exn + bool" where
  "ecdsa_verify' ext al ec dsasig H P0 =
     bnd (to_dsasig ec dsasig) (\<lambda>(r, s).
     bnd (int_from_hash ext H ec) (\<lambda>e.
     bnd (to_Point ec P0) (\<lambda>P.
     bnd (mod_inv s (curve_n ec)) (\<lambda>s1.
     let u1 = e * s1; u2 = r * s1 in
     bnd (DoubleScalarMultiplication al ec u1 (curve_G ec) u2 P) (\<lambda>R.
     if snd R = 0 then Inr False
     else bnd (py_mod (fst R) (curve_n ec)) (\<lambda>v. Inr (v = r)))))))"

text \<open>\<^verbatim>\<open>ecdsa_verify(dsasig, M, Q, ec, Hash)\<close>: the whole body is inside \<^verbatim>\<open>try\<close>.\<close>

definition ecdsa_verify ::
  "('m, 'h) collaborators \<Rightarrow> alias_consts \<Rightarrow> curve \<Rightarrow> int list \<Rightarrow> 'm \<Rightarrow> Point
     \<Rightarrow> exn + bool" where
  "ecdsa_verify ext al ec dsasig M Q =
     try_except (bnd (Hash ext M) (\<lambda>H. ecdsa_verify' ext al ec dsasig H Q))
       (\<lambda>_. Inr False)"

text \<open>
  One iteration of the loop of \<^verbatim>\<open>_ecdsa_pubkey_recovery\<close>: the body is inside \<^verbatim>\<open>try\<close>,
  and \<^verbatim>\<open>except Exception: pass\<close> keeps what was appended before the exception.
\<close>

definition recovery_step ::
  "alias_consts \<Rightarrow> curve \<Rightarrow> int \<Rightarrow> int \<Rightarrow> int \<Rightarrow> Point list \<Rightarrow> int \<Rightarrow> Point list" where
  "recovery_step al ec r r1s r1e keys j =
     (let x = r + j * curve_n ec in
      case y_odd ec x 1 of
        Inl _ \<Rightarrow> keys
      | Inr yR \<Rightarrow>
          (case DoubleScalarMultiplication al ec r1s (x, yR) r1e (curve_G ec) of
             Inl _ \<Rightarrow> keys
           | Inr Q \<Rightarrow>
               (case opposite ec (x, yR) of
                  Inl _ \<Rightarrow> keys @ [Q]
                | Inr R' \<Rightarrow>
                    (case DoubleScalarMultiplication al ec r1s R' r1e (curve_G ec) of
                       Inl _ \<Rightarrow> keys @ [Q]
                     | Inr Q' \<Rightarrow> keys @ [Q] @ [Q']))))"

text \<open>\<^verbatim>\<open>_ecdsa_pubkey_recovery(dsasig, H, ec, Hash)\<close>; \<^verbatim>\<open>range(0, 2)\<close> is the list \<open>[0, 1]\<close>.\<close>

definition ecdsa_pubkey_recovery' ::
  "('m, 'h) collaborators \<Rightarrow> alias_consts \<Rightarrow> curve \<Rightarrow> int list \<Rightarrow> 'h \<Rightarrow> exn + Point list" where
  "ecdsa_pubkey_recovery' ext al ec dsasig H =
     bnd (to_dsasig ec dsasig) (\<lambda>(r, s).
     bnd (int_from_hash ext H ec) (\<lambda>e.
     bnd (mod_inv r (curve_n ec)) (\<lambda>r1.
     let r1s = r1 * s; r1e = - r1 * e in
     Inr (foldl (recovery_step al ec r r1s r1e) [] [0, 1]))))"

section \<open>Test data\<close>

text \<open>
  Concrete inputs for the witnesses and counterexamples below: values for the two constants
  of \<^verbatim>\<open>alias\<close>, a small curve of prime order (\<open>y\<^sup>2 = x\<^sup>3 + x + 6\<close> over \<open>F\<^sub>1\<^sub>1\<close>, 13 points,
  generator \<open>(2, 7)\<close>), the two floating-point results its construction needs
  (\<open>int(2 * sqrt(11)) = 6\<close> and \<open>int(1/13 + 6/13 + 11/13) = 1\<close>), and collaborators whose
  digest is the message itself.
\<close>

definition al7 :: alias_consts where
  "al7 = \<lparr> INF_aff = (7, 0), INFJ = (7, 0, 0) \<rparr>"


definition ec11 :: curve where
  "ec11 = mk_curve 11 1 6 (2, 7) 13 1 0"

definition ext0 :: "(int, int) collaborators" where
  "ext0 = \<lparr> Hash = (\<lambda>M. Inr M), int_from_hash = (\<lambda>H ec. Inr H),
             rfc6979 = (\<lambda>d H ec. Inr 2) \<rparr>"

text \<open>
  A curve with cofactor 3: \<open>y\<^sup>2 = x\<^sup>3 + 6x + 5\<close> over \<open>F\<^sub>1\<^sub>7\<close> has 21 points, \<open>(8, 2)\<close> has order 7
  and \<open>(6, 6)\<close> has order 3; \<open>int(2 * sqrt(17)) = 8\<close> and \<open>int(1/7 + 8/7 + 17/7) = 3\<close>.
\<close>

definition fl_17 :: float_ops where
  "fl_17 = \<lparr> int_2_sqrt = (\<lambda>p. Inr 8), int_cofactor = (\<lambda>n d p. Inr 3) \<rparr>"

definition ec17 :: curve where
  "ec17 = mk_curve 17 6 5 (8, 2) 7 3 0"






section \<open>Predicates used in the statements\<close>


text \<open>
  A point as section 3 of the specification describes it: an infinity point (second
  component 0), or a pair with both coordinates in \<open>[0, p)\<close> that satisfies the curve
  equation. \<^verbatim>\<open>is_on_curve\<close> accepts every such point; it does not test the range of \<open>x\<close>.
\<close>

definition good_point :: "curve \<Rightarrow> Point \<Rightarrow> bool" where
  "good_point ec P =
     (snd P = 0 \<or>
      (0 \<le> fst P \<and> fst P < curve_p ec \<and> 0 < snd P \<and> snd P < curve_p ec \<and>
       ((fst P * fst P + curve_a ec) * fst P + curve_b ec) mod curve_p ec
         = (snd P * snd P) mod curve_p ec))"


section \<open>Basic facts\<close>

lemma bnd_Inr [simp]: "bnd (Inr v) f = f v"
  by (simp add: bnd_def)

lemma bnd_Inl [simp]: "bnd (Inl e) f = Inl e"
  by (simp add: bnd_def)


lemma py_mod_nz [simp]: "m \<noteq> 0 \<Longrightarrow> py_mod x m = Inr (x mod m)"
  by (simp add: py_mod_def)


lemma is_on_curve_fin:
  "snd P \<noteq> 0 \<Longrightarrow> is_on_curve ec P = Inr True \<longleftrightarrow>
     0 < snd P \<and> snd P < curve_p ec \<and>
     ((fst P * fst P + curve_a ec) * fst P + curve_b ec) mod curve_p ec
       = (snd P * snd P) mod curve_p ec"
  by (auto simp: is_on_curve_def y2_def)

lemma require_on_curve_iff:
  "require_on_curve ec P = Inr u \<longleftrightarrow> is_on_curve ec P = Inr True"
  by (cases "is_on_curve ec P") (auto simp: require_on_curve_def)

lemma require_on_curve_ok [simp]:
  "is_on_curve ec P = Inr True \<Longrightarrow> require_on_curve ec P = Inr ()"
  by (simp add: require_on_curve_def)

lemma neg_sq_mod: "((p - y) * (p - y)) mod p = (y * y) mod (p::int)"
proof -
  have "(p - y) * (p - y) = y * y + p * (p - 2 * y)" by algebra
  then show ?thesis by simp
qed

lemma opposite_inf:
  assumes "snd P = 0" "curve_p ec \<noteq> 0"
  shows "opposite ec P = Inr (fst P, 0)"
  using assms by (simp add: opposite_def is_on_curve_def)

lemma opposite_fin:
  assumes "is_on_curve ec P = Inr True" "snd P \<noteq> 0"
  shows "opposite ec P = Inr (fst P, curve_p ec - snd P)"
    and "is_on_curve ec (fst P, curve_p ec - snd P) = Inr True"
proof -
  from assms have rng: "0 < snd P" "snd P < curve_p ec"
    and eq: "((fst P * fst P + curve_a ec) * fst P + curve_b ec) mod curve_p ec
       = (snd P * snd P) mod curve_p ec"
    by (simp_all add: is_on_curve_fin)
  have m: "(curve_p ec - snd P) mod curve_p ec = curve_p ec - snd P"
    using rng by (intro mod_pos_pos_trivial) auto
  show "opposite ec P = Inr (fst P, curve_p ec - snd P)"
    using assms(1) rng m by (simp add: opposite_def del: minus_mod_self1)
  show "is_on_curve ec (fst P, curve_p ec - snd P) = Inr True"
    using rng eq by (simp add: is_on_curve_fin neg_sq_mod)
qed



section \<open>The infinity sentinel in is_on_curve\<close>

text \<open>
  Claim C10. For every integer \<open>x\<close> (and every curve record, whatever its fields),
  \<^verbatim>\<open>is_on_curve((x, 0))\<close> returns \<^verbatim>\<open>True\<close>: the test \<^verbatim>\<open>Q[1] == 0\<close> comes before the range
  test and before the curve equation, so the result does not depend on \<open>x\<close>, and the
  right-hand side of the equation, \<open>y2 ec x\<close>, is not consulted (the result is the same
  for every value it could have, even an exception).
\<close>

theorem is_on_curve_y_zero:
  "is_on_curve ec (x, 0) = Inr True"
  by (simp add: is_on_curve_def)

section \<open>Opposite points and the neutral element\<close>

text \<open>
  Claim C8, as amended. For every point \<open>P\<close> that \<^verbatim>\<open>is_on_curve\<close> accepts, on a curve with odd
  \<open>p\<close> (the constructor's first check): \<^verbatim>\<open>add(P, INF)\<close> returns \<open>P\<close>, and
  \<^verbatim>\<open>add(P, opposite(P))\<close> returns an infinity point in the sense of the source (its second
  component is 0); it is the constant \<^verbatim>\<open>INF\<close> itself when \<open>P\<close> is finite.
\<close>

theorem add_opposite_infinity:
  assumes on: "is_on_curve ec P = Inr True" and odd: "odd (curve_p ec)" and al: "alias_ok al"
  shows "add al ec P (INF_aff al) = Inr P \<and>
     (\<exists>P' R. opposite ec P = Inr P' \<and> add al ec P P' = Inr R \<and> snd R = 0 \<and>
        (snd P \<noteq> 0 \<longrightarrow> R = INF_aff al))"
proof -
  have pnz: "curve_p ec \<noteq> 0" using odd by auto
  have inf_on: "is_on_curve ec (INF_aff al) = Inr True"
    using al by (simp add: alias_ok_def is_on_curve_def)
  have right: "add al ec P (INF_aff al) = Inr P"
    using on inf_on al by (simp add: add_def add_aff_def alias_ok_def)
  show ?thesis
  proof (cases "snd P = 0")
    case True
    have "opposite ec P = Inr (fst P, 0)" using True pnz by (rule opposite_inf)
    moreover have "add al ec P (fst P, 0) = Inr P"
      using on by (simp add: add_def add_aff_def is_on_curve_def)
    ultimately show ?thesis using right True by (cases P) simp
  next
    case False
    note op = opposite_fin [OF on False]
    have rng: "0 < snd P" "snd P < curve_p ec" using on False by (simp_all add: is_on_curve_fin)
    have ne: "curve_p ec - snd P \<noteq> snd P" using odd by presburger
    have "add al ec P (fst P, curve_p ec - snd P) = Inr (INF_aff al)"
      using on op(2) False rng ne by (simp add: add_def add_aff_def)
    moreover have "snd (INF_aff al) = 0" using al by (simp add: alias_ok_def)
    ultimately show ?thesis using right op(1) by blast
  qed
qed

theorem add_opposite_infinity_witness:
  "is_on_curve ec11 (2, 7) = Inr True \<and> odd (curve_p ec11) \<and> alias_ok al7 \<and>
   add al7 ec11 (2, 7) (INF_aff al7) = Inr (2, 7) \<and>
   opposite ec11 (2, 7) = Inr (2, 4) \<and> add al7 ec11 (2, 7) (2, 4) = Inr (INF_aff al7)"
proof -
  have a: "is_on_curve ec11 (2, 7) = Inr True" by code_simp
  have b: "odd (curve_p ec11)" by code_simp
  have c: "alias_ok al7" by code_simp
  have d: "opposite ec11 (2, 7) = Inr (2, 4)" by code_simp
  from add_opposite_infinity [OF a b c] a b c d show ?thesis by auto
qed

text \<open>
  The claim as stated, with \<^verbatim>\<open>==\<close> the equality of tuples, fails for a point that is itself
  an infinity point other than \<^verbatim>\<open>INF\<close>: \<open>(5, 0)\<close> is on the curve, and the sum with its opposite
  is \<open>(5, 0)\<close>, not \<open>(7, 0)\<close>.
\<close>

theorem add_opposite_infinity_counterexample:
  "is_on_curve ec11 (5, 0) = Inr True \<and> opposite ec11 (5, 0) = Inr (5, 0) \<and>
   add al7 ec11 (5, 0) (5, 0) = Inr (5, 0) \<and> (5, 0) \<noteq> INF_aff al7"
  by code_simp

section \<open>Verification never raises\<close>

text \<open>
  Claim C2. For every signature (a sequence of any length), message, public point and
  curve, and whatever the collaborators do, \<^verbatim>\<open>ecdsa_verify\<close> returns a boolean; whenever
  its body (hashing, then \<^verbatim>\<open>_ecdsa_verify\<close>) raises, the value returned is \<^verbatim>\<open>False\<close>.
\<close>

theorem ecdsa_verify_never_raises:
  "(\<exists>b. ecdsa_verify ext al ec dsasig M Q = Inr b) \<and>
   (\<forall>e. bnd (Hash ext M) (\<lambda>H. ecdsa_verify' ext al ec dsasig H Q) = Inl e
        \<longrightarrow> ecdsa_verify ext al ec dsasig M Q = Inr False)"
  by (cases "bnd (Hash ext M) (\<lambda>H. ecdsa_verify' ext al ec dsasig H Q)")
     (auto simp: ecdsa_verify_def try_except_def)

theorem ecdsa_verify_never_raises_witness:
  "bnd (Hash ext0 5) (\<lambda>H. ecdsa_verify' ext0 al7 ec11 [1] H (2, 7)) = Inl TypeError \<and>
   bnd (Hash ext0 5) (\<lambda>H. ecdsa_verify' ext0 al7 ec11 [0, 3] H (2, 7)) = Inl ValueError \<and>
   bnd (Hash ext0 5) (\<lambda>H. ecdsa_verify' ext0 al7 ec11 [3, 3] H (2, 5)) = Inl ValueError \<and>
   ecdsa_verify ext0 al7 ec11 [1] 5 (2, 7) = Inr False \<and>
   ecdsa_verify ext0 al7 ec11 [0, 3] 5 (2, 7) = Inr False \<and>
   ecdsa_verify ext0 al7 ec11 [3, 3] 5 (2, 5) = Inr False"
proof -
  have a: "bnd (Hash ext0 5) (\<lambda>H. ecdsa_verify' ext0 al7 ec11 [1] H (2, 7)) = Inl TypeError"
    by code_simp
  have b: "bnd (Hash ext0 5) (\<lambda>H. ecdsa_verify' ext0 al7 ec11 [0, 3] H (2, 7)) = Inl ValueError"
    by code_simp
  have c: "bnd (Hash ext0 5) (\<lambda>H. ecdsa_verify' ext0 al7 ec11 [3, 3] H (2, 5)) = Inl ValueError"
    by code_simp
  from a b c
    ecdsa_verify_never_raises [of ext0 al7 ec11 "[1]" 5 "(2, 7)"]
    ecdsa_verify_never_raises [of ext0 al7 ec11 "[0, 3]" 5 "(2, 7)"]
    ecdsa_verify_never_raises [of ext0 al7 ec11 "[3, 3]" 5 "(2, 5)"]
  show ?thesis by blast
qed

section \<open>The order check of the constructor\<close>



section \<open>Modular inverses and primes\<close>

lemma mod_inv_ok:
  assumes m: "0 < m" and g: "gcd a m = 1"
  shows "\<exists>i. mod_inv a m = Inr i \<and> 0 \<le> i \<and> i < m \<and> (a * i) mod m = 1 mod m"
proof -
  define f where "f = fst (bezw (nat (a mod m)) (nat m))"
  define s where "s = snd (bezw (nat (a mod m)) (nat m))"
  have am: "0 \<le> a mod m" using m by simp
  have "gcd (nat (a mod m)) (nat m) = nat (gcd (a mod m) m)"
    using am m by (simp add: gcd_int_def nat_abs_int_diff)
  also have "gcd (a mod m) m = 1" using g by (metis gcd_red_int gcd.commute)
  finally have g1: "gcd (nat (a mod m)) (nat m) = 1" by simp
  have "int (gcd (nat (a mod m)) (nat m)) = f * int (nat (a mod m)) + s * int (nat m)"
    unfolding f_def s_def by (rule bezw_aux)
  then have bz: "1 = f * (a mod m) + s * m" using g1 am m by simp
  have "(a * (f mod m)) mod m = ((a mod m) * f) mod m"
    by (simp add: mod_mult_right_eq mod_mult_left_eq mult.commute)
  also have "(a mod m) * f = 1 - s * m" using bz by (simp add: algebra_simps)
  also have "(1 - s * m) mod m = 1 mod m" by (metis mod_diff_right_eq mod_mult_self2_is_0 diff_zero)
  finally have "(a * (f mod m)) mod m = 1 mod m" .
  moreover have "mod_inv a m = Inr (f mod m)" using m g by (simp add: mod_inv_def f_def)
  moreover have "0 \<le> f mod m" "f mod m < m" using m by simp_all
  ultimately show ?thesis by blast
qed



section \<open>Closure of the affine addition\<close>








lemma Curve_init_ec17: "Curve_init fl_17 al7 17 6 5 (8, 2) 7 3 0 False = Inr ec17"
  by code_simp



section \<open>Scalar multiplication\<close>




section \<open>Public-key recovery\<close>





text \<open>
  Claim C3 at a failing input. On the curve with cofactor 3, the digest of integer value 0,
  the private key 1 and the nonce 2 give the signature \<open>(2, 1)\<close>: the nonce point is
  \<open>2\<cdot>G = (16, 10)\<close> and \<open>r = 16 mod 7 = 2\<close>. The signature verifies against the public key
  \<open>1\<cdot>G = (8, 2)\<close>, but recovery only tries the abscissas \<open>2\<close> and \<open>9\<close> (\<^verbatim>\<open>range(0, 2)\<close>, not
  \<open>16 = r + 2\<cdot>n\<close>), and the list it returns does not contain \<open>(8, 2)\<close>.
\<close>

theorem recovery_misses_public_key:
  "Curve_init fl_17 al7 17 6 5 (8, 2) 7 3 0 False = Inr ec17 \<and>
   ecdsa_sign' ext0 al7 ec17 0 1 None = Inr (2, 1) \<and>
   mult al7 ec17 1 None = Inr (8, 2) \<and>
   mult al7 ec17 2 None = Inr (16, 10) \<and>
   ecdsa_verify' ext0 al7 ec17 [2, 1] 0 (8, 2) = Inr True \<and>
   ecdsa_pubkey_recovery' ext0 al7 ec17 [2, 1] 0 = Inr [(13, 11), (13, 6)] \<and>
   (8, 2) \<notin> set [(13, 11), (13 :: int, 6 :: int)]"
  using Curve_init_ec17 by code_simp

section \<open>Jacobian addition against affine addition\<close>

text \<open>
  The Jacobian formulas of \<^verbatim>\<open>_add_jac\<close>, at \<open>Z = 1\<close> on both arguments, as congruences modulo
  \<open>p\<close>: with \<open>i\<close> an inverse of the affine denominator and \<open>i2\<close>, \<open>i3\<close> inverses of \<open>Z\<^sup>2\<close> and
  \<open>Z\<^sup>3\<close>, the Jacobian result mapped back is congruent to the affine result.
\<close>

lemma jac_dbl_x:
  fixes p x y a i lam Z i2 W V X :: int
  assumes "p dvd (2 * y * i - 1)" "p dvd (lam - (3 * x * x + a) * i)"
    "p dvd (Z - 2 * y)" "p dvd (Z * Z * i2 - 1)"
    "p dvd (W - (3 * x * x + a))" "p dvd (V - 4 * x * (y * y))"
    "p dvd (X - (W * W - 2 * V))"
  shows "p dvd (X * i2 - (lam * lam - x - x))"
  using assms by algebra

lemma inv_cube:
  fixes p d i Z i3 :: int
  assumes "p dvd (d * i - 1)" "p dvd (Z - d)" "p dvd (Z * Z * Z * i3 - 1)"
  shows "p dvd (i3 - i * i * i)"
  using assms by algebra

lemma jac_dbl_y:
  fixes p x y a i lam Z i3 W V X Y x3 :: int
  assumes i: "p dvd (2 * y * i - 1)" and lam: "p dvd (lam - (3 * x * x + a) * i)"
    and Z: "p dvd (Z - 2 * y)" and i3: "p dvd (Z * Z * Z * i3 - 1)"
    and W: "p dvd (W - (3 * x * x + a))" and V: "p dvd (V - 4 * x * (y * y))"
    and X: "p dvd (X - (W * W - 2 * V))" and Y: "p dvd (Y - (W * (V - X) - 8 * (y * y) * (y * y)))"
    and x3: "p dvd (x3 - (lam * lam - x - x))"
  shows "p dvd (Y * i3 - (lam * (x - x3) - y))"
proof -
  have h1: "p dvd (i3 - i * i * i)" using i Z i3 by (rule inv_cube)
  have h2: "p dvd (W * i - lam)" using lam W by algebra
  have h3a: "p dvd (V * i * i - x)" using i V by algebra
  have h3b: "p dvd (X * i * i - (lam * lam - x - x))" using h2 h3a X by algebra
  have h3: "p dvd ((V - X) * i * i - (x - x3))" using h3a h3b x3 by algebra
  have h4: "p dvd (8 * (y * y) * (y * y) * (i * i * i) - y)" using i by algebra
  have h5: "p dvd (Y * (i * i * i) - (lam * (x - x3) - y))" using Y h2 h3 h4 by algebra
  show ?thesis using h1 h5 by algebra
qed

lemma jac_add_x:
  fixes p x1 y1 x2 y2 i lam Z i2 W V X :: int
  assumes "p dvd ((x2 - x1) * i - 1)" "p dvd (lam - (y2 - y1) * i)"
    "p dvd (V - (x2 - x1))" "p dvd (W - (y2 - y1))" "p dvd (Z - V)" "p dvd (Z * Z * i2 - 1)"
    "p dvd (X - (W * W - V * V * V - 2 * (x1 * (V * V))))"
  shows "p dvd (X * i2 - (lam * lam - x1 - x2))"
  using assms by algebra

lemma jac_add_y:
  fixes p x1 y1 x2 y2 i lam Z i3 W V X Y x3 :: int
  assumes i: "p dvd ((x2 - x1) * i - 1)" and lam: "p dvd (lam - (y2 - y1) * i)"
    and V: "p dvd (V - (x2 - x1))" and W: "p dvd (W - (y2 - y1))" and Z: "p dvd (Z - V)"
    and i3: "p dvd (Z * Z * Z * i3 - 1)"
    and X: "p dvd (X - (W * W - V * V * V - 2 * (x1 * (V * V))))"
    and Y: "p dvd (Y - (W * (x1 * (V * V) - X) - y1 * (V * V * V)))"
    and x3: "p dvd (x3 - (lam * lam - x1 - x2))"
  shows "p dvd (Y * i3 - (lam * (x1 - x3) - y1))"
proof -
  have Zd: "p dvd (Z - (x2 - x1))" using Z V by algebra
  have h1: "p dvd (i3 - i * i * i)" using i Zd i3 by (rule inv_cube)
  have vi: "p dvd (V * i - 1)" using i V by algebra
  have h2: "p dvd (W * i - lam)" using lam W by algebra
  have h3a: "p dvd (x1 * (V * V) * i * i - x1)" using vi by algebra
  have h3b: "p dvd (X * i * i - (lam * lam - x1 - x2))" using h2 vi V X by algebra
  have h3: "p dvd ((x1 * (V * V) - X) * i * i - (x1 - x3))" using h3a h3b x3 by algebra
  have h4: "p dvd (y1 * (V * V * V) * (i * i * i) - y1)" using vi by algebra
  have h5: "p dvd (Y * (i * i * i) - (lam * (x1 - x3) - y1))" using Y h2 h3 h4 by algebra
  show ?thesis using h1 h5 by algebra
qed

lemma gcd_sq: "gcd (Z * Z) (p::int) = 1 \<longleftrightarrow> gcd Z p = 1"
  by (simp add: coprime_iff_gcd_eq_1 [symmetric])

lemma gcd_cube: "gcd (Z * Z * Z) (p::int) = 1 \<longleftrightarrow> gcd Z p = 1"
  by (simp add: coprime_iff_gcd_eq_1 [symmetric])

lemma gcd_mod_left: "gcd (d mod p) (p::int) = gcd d p"
  by (metis gcd_red_int gcd.commute)

lemma mod_inv_dvd:
  assumes "0 < m" "gcd a m = 1"
  obtains i where "mod_inv a m = Inr i" "m dvd (a * i - 1)"
proof -
  from mod_inv_ok [OF assms] obtain i where "mod_inv a m = Inr i" "(a * i) mod m = 1 mod m"
    by blast
  then show ?thesis using that by (simp add: mod_eq_dvd_iff)
qed

lemma mod_inv_one: "1 < p \<Longrightarrow> mod_inv 1 p = Inr 1"
proof -
  assume p: "1 < p"
  then have "0 < p" "gcd 1 p = 1" by simp_all
  from mod_inv_ok [OF this] obtain i where
    i: "mod_inv 1 p = Inr i" "0 \<le> i" "i < p" "(1 * i) mod p = 1 mod p" by blast
  then have "i = 1" using p by simp
  with i(1) show ?thesis by simp
qed

lemma aff_from_jac_unit:
  assumes "0 < curve_p ec" "Z \<noteq> 0" "gcd Z (curve_p ec) = 1"
  obtains i2 i3 where
    "aff_from_jac al ec (X, Y, Z) = Inr ((X * i2) mod curve_p ec, (Y * i3) mod curve_p ec)"
    "curve_p ec dvd (Z * Z * i2 - 1)" "curve_p ec dvd (Z * Z * Z * i3 - 1)"
proof -
  have "gcd (Z * Z) (curve_p ec) = 1" "gcd (Z * Z * Z) (curve_p ec) = 1"
    using assms(3) by (simp_all only: gcd_sq gcd_cube)
  then obtain i2 i3 where
    "mod_inv (Z * Z) (curve_p ec) = Inr i2" "curve_p ec dvd (Z * Z * i2 - 1)"
    "mod_inv (Z * Z * Z) (curve_p ec) = Inr i3" "curve_p ec dvd (Z * Z * Z * i3 - 1)"
    using assms(1) by (metis mod_inv_dvd)
  then show ?thesis using that assms(1,2) by (simp add: aff_from_jac_def)
qed

lemma aff_from_jac_nonunit:
  assumes "Z \<noteq> 0" "gcd Z (curve_p ec) \<noteq> 1"
  shows "aff_from_jac al ec (X, Y, Z) = Inl ValueError"
proof -
  have "gcd (Z * Z) (curve_p ec) \<noteq> 1" using assms(2) by (simp add: gcd_sq)
  then show ?thesis using assms(1) by (simp add: aff_from_jac_def mod_inv_def)
qed

lemma aff_from_jac_one:
  assumes "1 < curve_p ec" "0 \<le> x" "x < curve_p ec" "0 \<le> y" "y < curve_p ec"
  shows "aff_from_jac al ec (x, y, 1) = Inr (x, y)"
  using assms by (simp add: aff_from_jac_def mod_inv_one)

lemma mod_dvd_diff: "(p::int) dvd (a mod p - a)"
  by (simp add: mod_eq_dvd_iff [symmetric])

lemma odd_not_dvd_double:
  assumes "odd (p::int)" "0 < y" "y < p"
  shows "\<not> p dvd 2 * y"
proof
  assume "p dvd 2 * y"
  then obtain k where k: "2 * y = p * k" by (auto simp: dvd_def)
  have p: "0 < p" using assms by simp
  have "0 < p * k" using assms(2) k by linarith
  then have k0: "0 < k" using p by (simp add: zero_less_mult_iff)
  have "p * k < p * 2" using assms(3) k by linarith
  then have "k < 2" using p by (simp only: mult_less_cancel_left_pos)
  with k0 have "k = 1" by simp
  with k have "p = 2 * y" by simp
  with assms(1) show False by simp
qed


text \<open>
  Claim C9, as amended. For two points that are \<^verbatim>\<open>INF\<close> or finite points of the curve with
  coordinates in range, not both of the form \<open>(x, 0)\<close> unless the first is the constant
  \<^verbatim>\<open>INF\<close> itself, \<^verbatim>\<open>_aff_from_jac(_add_jac(jac(P), jac(Q)))\<close> and \<^verbatim>\<open>_add_aff(P, Q)\<close> are the same
  result: the same point, or the same \<^verbatim>\<open>ValueError\<close> of \<^verbatim>\<open>mod_inv\<close> when the denominator is not
  invertible modulo \<open>p\<close> (both paths raise then; \<open>p\<close> need not be prime). Here \<open>jac\<close> is
  \<^verbatim>\<open>_jac_from_aff\<close> and \<open>p\<close> is odd.
\<close>

theorem jacobian_addition_agrees:
  assumes odd: "odd (curve_p ec)" and pos: "0 < curve_p ec" and al: "alias_ok al"
    and P: "good_point ec P" and Q: "good_point ec Q"
    and sentinel: "snd P = 0 \<and> snd Q = 0 \<longrightarrow> P = INF_aff al"
  shows "bnd (add_jac al ec (jac_from_aff P) (jac_from_aff Q)) (aff_from_jac al ec)
           = add_aff al ec P Q"
proof -
  define p where "p = curve_p ec"
  define a where "a = curve_a ec"
  obtain x1 y1 where P_eq: "P = (x1, y1)" by (cases P)
  obtain x2 y2 where Q_eq: "Q = (x2, y2)" by (cases Q)
  have p0: "0 < p" "p \<noteq> 0" using pos by (simp_all add: p_def)
  have infj: "aff_from_jac al ec (INFJ al) = Inr (INF_aff al)"
    using al by (cases "INFJ al") (simp add: alias_ok_def aff_from_jac_def)
  have fin1: "1 < p" "0 \<le> x \<and> x < p \<and> 0 < y \<and> y < p"
    if "good_point ec (x, y)" "y \<noteq> 0" for x y
    using that p0 by (auto simp: good_point_def p_def)
  consider (q0p0) "y2 = 0" "y1 = 0" | (q0) "y2 = 0" "y1 \<noteq> 0" | (p0) "y2 \<noteq> 0" "y1 = 0"
    | (opp) "y2 \<noteq> 0" "y1 \<noteq> 0" "x2 = x1" "y2 \<noteq> y1"
    | (dbl) "y2 \<noteq> 0" "y1 \<noteq> 0" "x2 = x1" "y2 = y1"
    | (gen) "y2 \<noteq> 0" "y1 \<noteq> 0" "x2 \<noteq> x1"
    by blast
  then show ?thesis
  proof cases
    case q0p0
    then have "P = INF_aff al" using sentinel P_eq Q_eq by simp
    then show ?thesis using q0p0 P_eq Q_eq al
      by (simp add: add_jac_def jac_from_aff_def add_aff_def aff_from_jac_def alias_ok_def)
  next
    case q0
    note f = fin1 [OF P [unfolded P_eq] q0(2)]
    have "aff_from_jac al ec (x1, y1, 1) = Inr (x1, y1)"
      using f by (intro aff_from_jac_one) (simp_all add: p_def)
    then show ?thesis using q0 P_eq Q_eq
      by (simp add: add_jac_def jac_from_aff_def add_aff_def)
  next
    case p0
    note f = fin1 [OF Q [unfolded Q_eq] p0(1)]
    have "aff_from_jac al ec (x2, y2, 1) = Inr (x2, y2)"
      using f by (intro aff_from_jac_one) (simp_all add: p_def)
    then show ?thesis using p0 P_eq Q_eq
      by (simp add: add_jac_def jac_from_aff_def add_aff_def)
  next
    case opp
    note f1 = fin1 [OF P [unfolded P_eq] opp(2)] and f2 = fin1 [OF Q [unfolded Q_eq] opp(1)]
    have "y1 mod p \<noteq> y2 mod p" using f1 f2 opp by simp
    then have "add_jac al ec (x1, y1, 1) (x2, y2, 1) = Inr (INFJ al)"
      using opp p0 by (simp add: add_jac_def Let_def p_def)
    then show ?thesis using opp P_eq Q_eq infj
      by (simp add: jac_from_aff_def add_aff_def)
  next
    case dbl
    note f1 = fin1 [OF P [unfolded P_eq] dbl(2)]
    define W where "W = (3 * x1 * x1 + a) mod p"
    define V where "V = (4 * x1 * (y1 * y1)) mod p"
    define X where "X = (W * W - 2 * V) mod p"
    define Y where "Y = (W * (V - X) - 8 * (y1 * y1) * (y1 * y1)) mod p"
    define Z where "Z = (2 * y1) mod p"
    have aj: "add_jac al ec (x1, y1, 1) (x2, y2, 1) = Inr (X, Y, Z)"
      using dbl p0 by (simp add: add_jac_def Let_def p_def [symmetric] a_def [symmetric]
          W_def V_def X_def Y_def Z_def)
    have Znz: "Z \<noteq> 0"
      using odd_not_dvd_double [of p y1] odd f1 by (simp add: Z_def p_def dvd_eq_mod_eq_0)
    have gZ: "gcd Z p = gcd (2 * y1) p" unfolding Z_def by (rule gcd_mod_left)
    have aa: "add_aff al ec P Q = bnd (mod_inv (2 * y1) p) (\<lambda>i.
        Inr ((((3 * x1 * x1 + a) * i) mod p * (((3 * x1 * x1 + a) * i) mod p) - x1 - x1) mod p,
             (((3 * x1 * x1 + a) * i) mod p
                * (x1 - (((3 * x1 * x1 + a) * i) mod p * (((3 * x1 * x1 + a) * i) mod p) - x1 - x1) mod p)
                - y1) mod p))"
      using dbl p0 P_eq Q_eq by (simp add: add_aff_def p_def a_def bnd_def split: sum.splits)
    show ?thesis
    proof (cases "gcd (2 * y1) p = 1")
      case False
      then have "mod_inv (2 * y1) p = Inl ValueError" by (simp add: mod_inv_def)
      moreover have "aff_from_jac al ec (X, Y, Z) = Inl ValueError"
        using Znz False gZ by (intro aff_from_jac_nonunit) (simp_all add: p_def)
      ultimately show ?thesis using aa aj P_eq Q_eq dbl by (simp add: jac_from_aff_def)
    next
      case True
      obtain i where i: "mod_inv (2 * y1) p = Inr i" "p dvd (2 * y1 * i - 1)"
        using mod_inv_dvd [OF p0(1) True] by blast
      define lam where "lam = ((3 * x1 * x1 + a) * i) mod p"
      define x3 where "x3 = (lam * lam - x1 - x1) mod p"
      have aa': "add_aff al ec P Q = Inr (x3, (lam * (x1 - x3) - y1) mod p)"
        using aa i(1) by (simp add: lam_def x3_def)
      obtain i2 i3 where j: "aff_from_jac al ec (X, Y, Z) = Inr ((X * i2) mod p, (Y * i3) mod p)"
        "p dvd (Z * Z * i2 - 1)" "p dvd (Z * Z * Z * i3 - 1)"
        using aff_from_jac_unit [of ec Z al X Y] p0 Znz gZ True unfolding p_def by metis
      have dl: "p dvd (lam - (3 * x1 * x1 + a) * i)" unfolding lam_def by (rule mod_dvd_diff)
      have dZ: "p dvd (Z - 2 * y1)" unfolding Z_def by (rule mod_dvd_diff)
      have dW: "p dvd (W - (3 * x1 * x1 + a))" unfolding W_def by (rule mod_dvd_diff)
      have dV: "p dvd (V - 4 * x1 * (y1 * y1))" unfolding V_def by (rule mod_dvd_diff)
      have dX: "p dvd (X - (W * W - 2 * V))" unfolding X_def by (rule mod_dvd_diff)
      have dY: "p dvd (Y - (W * (V - X) - 8 * (y1 * y1) * (y1 * y1)))"
        unfolding Y_def by (rule mod_dvd_diff)
      have d3: "p dvd (x3 - (lam * lam - x1 - x1))" unfolding x3_def by (rule mod_dvd_diff)
      have "p dvd (X * i2 - (lam * lam - x1 - x1))"
        using i(2) dl dZ j(2) dW dV dX by (rule jac_dbl_x)
      then have ex: "(X * i2) mod p = x3" by (simp add: x3_def mod_eq_dvd_iff)
      have "p dvd (Y * i3 - (lam * (x1 - x3) - y1))"
        using i(2) dl dZ j(3) dW dV dX dY d3 by (rule jac_dbl_y)
      then have ey: "(Y * i3) mod p = (lam * (x1 - x3) - y1) mod p" by (simp add: mod_eq_dvd_iff)
      show ?thesis using aa' aj j(1) ex ey P_eq Q_eq dbl by (simp add: jac_from_aff_def)
    qed
  next
    case gen
    note f1 = fin1 [OF P [unfolded P_eq] gen(2)] and f2 = fin1 [OF Q [unfolded Q_eq] gen(1)]
    define W where "W = (y2 - y1) mod p"
    define V where "V = (x2 - x1) mod p"
    define X where "X = (W * W - V * V * V - 2 * (x1 * (V * V))) mod p"
    define Y where "Y = (W * (x1 * (V * V) - X) - y1 * (V * V * V)) mod p"
    have ne: "x1 mod p \<noteq> x2 mod p" using f1 f2 gen by simp
    have tr: "x1 mod p = x1" "x2 mod p = x2" "y1 mod p = y1" "y2 mod p = y2"
      using f1 f2 by simp_all
    have aj: "add_jac al ec (x1, y1, 1) (x2, y2, 1) = Inr (X, Y, V)"
      using gen p0 ne tr by (simp add: add_jac_def Let_def p_def [symmetric]
          W_def V_def X_def Y_def)
    have Vnz: "V \<noteq> 0"
    proof
      assume "V = 0"
      then have "p dvd (x2 - x1)" by (simp add: V_def dvd_eq_mod_eq_0)
      then have "x2 mod p = x1 mod p" by (simp add: mod_eq_dvd_iff)
      with ne show False by simp
    qed
    have gV: "gcd V p = gcd (x2 - x1) p" unfolding V_def by (rule gcd_mod_left)
    have aa: "add_aff al ec P Q = bnd (mod_inv (x2 - x1) p) (\<lambda>i.
        Inr ((((y2 - y1) * i) mod p * (((y2 - y1) * i) mod p) - x1 - x2) mod p,
             (((y2 - y1) * i) mod p
                * (x1 - (((y2 - y1) * i) mod p * (((y2 - y1) * i) mod p) - x1 - x2) mod p)
                - y1) mod p))"
      using gen p0 P_eq Q_eq by (simp add: add_aff_def p_def bnd_def split: sum.splits)
    show ?thesis
    proof (cases "gcd (x2 - x1) p = 1")
      case False
      then have "mod_inv (x2 - x1) p = Inl ValueError" by (simp add: mod_inv_def)
      moreover have "aff_from_jac al ec (X, Y, V) = Inl ValueError"
        using Vnz False gV by (intro aff_from_jac_nonunit) (simp_all add: p_def)
      ultimately show ?thesis using aa aj P_eq Q_eq gen by (simp add: jac_from_aff_def)
    next
      case True
      obtain i where i: "mod_inv (x2 - x1) p = Inr i" "p dvd ((x2 - x1) * i - 1)"
        using mod_inv_dvd [OF p0(1) True] by blast
      define lam where "lam = ((y2 - y1) * i) mod p"
      define x3 where "x3 = (lam * lam - x1 - x2) mod p"
      have aa': "add_aff al ec P Q = Inr (x3, (lam * (x1 - x3) - y1) mod p)"
        using aa i(1) by (simp add: lam_def x3_def)
      obtain i2 i3 where j: "aff_from_jac al ec (X, Y, V) = Inr ((X * i2) mod p, (Y * i3) mod p)"
        "p dvd (V * V * i2 - 1)" "p dvd (V * V * V * i3 - 1)"
        using aff_from_jac_unit [of ec V al X Y] p0 Vnz gV True unfolding p_def by metis
      have dl: "p dvd (lam - (y2 - y1) * i)" unfolding lam_def by (rule mod_dvd_diff)
      have dV: "p dvd (V - (x2 - x1))" unfolding V_def by (rule mod_dvd_diff)
      have dW: "p dvd (W - (y2 - y1))" unfolding W_def by (rule mod_dvd_diff)
      have dZ: "p dvd (V - V)" by simp
      have dX: "p dvd (X - (W * W - V * V * V - 2 * (x1 * (V * V))))"
        unfolding X_def by (rule mod_dvd_diff)
      have dY: "p dvd (Y - (W * (x1 * (V * V) - X) - y1 * (V * V * V)))"
        unfolding Y_def by (rule mod_dvd_diff)
      have d3: "p dvd (x3 - (lam * lam - x1 - x2))" unfolding x3_def by (rule mod_dvd_diff)
      have "p dvd (X * i2 - (lam * lam - x1 - x2))"
        using i(2) dl dV dW dZ j(2) dX by (rule jac_add_x)
      then have ex: "(X * i2) mod p = x3" by (simp add: x3_def mod_eq_dvd_iff)
      have "p dvd (Y * i3 - (lam * (x1 - x3) - y1))"
        using i(2) dl dV dW dZ j(3) dX dY d3 by (rule jac_add_y)
      then have ey: "(Y * i3) mod p = (lam * (x1 - x3) - y1) mod p" by (simp add: mod_eq_dvd_iff)
      show ?thesis using aa' aj j(1) ex ey P_eq Q_eq gen by (simp add: jac_from_aff_def)
    qed
  qed
qed

theorem jacobian_addition_agrees_witness:
  "odd (curve_p ec11) \<and> 0 < curve_p ec11 \<and> alias_ok al7 \<and>
   good_point ec11 (2, 7) \<and> good_point ec11 (5, 2) \<and>
   bnd (add_jac al7 ec11 (jac_from_aff (2, 7)) (jac_from_aff (5, 2))) (aff_from_jac al7 ec11)
     = add_aff al7 ec11 (2, 7) (5, 2) \<and>
   add_aff al7 ec11 (2, 7) (5, 2) = Inr (8, 3) \<and>
   bnd (add_jac al7 ec11 (jac_from_aff (2, 7)) (jac_from_aff (2, 7))) (aff_from_jac al7 ec11)
     = add_aff al7 ec11 (2, 7) (2, 7) \<and>
   add_aff al7 ec11 (2, 7) (2, 7) = Inr (5, 2)"
proof -
  have a: "odd (curve_p ec11)" "0 < curve_p ec11" "alias_ok al7"
    "good_point ec11 (2, 7)" "good_point ec11 (5, 2)" by code_simp+
  have b: "add_aff al7 ec11 (2, 7) (5, 2) = Inr (8, 3)"
    "add_aff al7 ec11 (2, 7) (2, 7) = Inr (5, 2)" by code_simp+
  have c: "bnd (add_jac al7 ec11 (jac_from_aff (2, 7)) (jac_from_aff (5, 2))) (aff_from_jac al7 ec11)
     = add_aff al7 ec11 (2, 7) (5, 2)"
    using jacobian_addition_agrees [OF a(1,2,3,4,5)] by simp
  have d: "bnd (add_jac al7 ec11 (jac_from_aff (2, 7)) (jac_from_aff (2, 7))) (aff_from_jac al7 ec11)
     = add_aff al7 ec11 (2, 7) (2, 7)"
    using jacobian_addition_agrees [OF a(1,2,3,4,4)] by simp
  from a b c d show ?thesis by blast
qed


text \<open>
  Without the restrictions the two paths differ. Every pair \<open>(x, 0)\<close> is accepted as on the curve
  and treated as infinity: \<^verbatim>\<open>_add_aff((5, 0), (3, 0))\<close> returns its first argument \<open>(5, 0)\<close>,
  the Jacobian path returns the constant \<^verbatim>\<open>INF\<close>. And a finite point with an abscissa out of
  range, \<open>(13, 7)\<close> on the curve over \<open>F\<^sub>1\<^sub>1\<close>, is accepted by \<^verbatim>\<open>is_on_curve\<close>; the affine sum with
  \<^verbatim>\<open>INF\<close> returns it unchanged, the Jacobian path reduces it to \<open>(2, 7)\<close>.
\<close>

theorem jacobian_addition_counterexample:
  "is_on_curve ec11 (5, 0) = Inr True \<and> is_on_curve ec11 (3, 0) = Inr True \<and>
   add_aff al7 ec11 (5, 0) (3, 0) = Inr (5, 0) \<and>
   bnd (add_jac al7 ec11 (jac_from_aff (5, 0)) (jac_from_aff (3, 0))) (aff_from_jac al7 ec11)
     = Inr (7, 0) \<and>
   is_on_curve ec11 (INF_aff al7) = Inr True \<and> is_on_curve ec11 (13, 7) = Inr True \<and>
   add_aff al7 ec11 (INF_aff al7) (13, 7) = Inr (13, 7) \<and>
   bnd (add_jac al7 ec11 (jac_from_aff (INF_aff al7)) (jac_from_aff (13, 7))) (aff_from_jac al7 ec11)
     = Inr (2, 7)"
  by code_simp

section \<open>Signing, then verifying\<close>

















end
